theory Spec2Isabelle
  imports Main
begin

section \<open>JavaScript arrays of recipient entries\<close>

text \<open>
  The recipients array of \<^verbatim>\<open>app.jsx\<close> holds the strings typed into the inputs.
  The handlers never check an index, and an assignment past the end of a JavaScript
  array leaves empty slots behind, so a slot is one of three things: an empty slot
  (\<open>Hole\<close>), the value \<^verbatim>\<open>undefined\<close> (what a spread copies out of an empty slot), or
  a string. Strings are \<open>string\<close>: sequences of code units below 256. An index is
  a non-negative integer, a \<open>nat\<close>, as the \<^verbatim>\<open>map\<close> that draws the inputs passes it.
\<close>

datatype slot = Hole | Undefined | Str (str: string)

text \<open>\<^verbatim>\<open>[...xs]\<close>: the array iterator reads every index, an empty slot reads as \<^verbatim>\<open>undefined\<close>.\<close>

definition js_spread :: "slot list \<Rightarrow> slot list" where
  "js_spread xs = map (\<lambda>x. case x of Hole \<Rightarrow> Undefined | _ \<Rightarrow> x) xs"

text \<open>
  \<^verbatim>\<open>xs[i] = v\<close>. An array has at most 4294967295 slots, and the array indices are the
  integers below 4294967295. Within the length the slot is overwritten. At an array
  index past the end the array grows to length \<open>i + 1\<close> and the slots between stay
  empty. An integer of 4294967295 or more past the end is not an array index: the
  assignment creates a plain property of the array object, and the length and the
  slots stay as they are. Nothing in the component reads such a property (the spread,
  \<^verbatim>\<open>filter\<close>, \<^verbatim>\<open>map\<close>, \<^verbatim>\<open>length\<close> and \<^verbatim>\<open>JSON.stringify\<close> go by the array indices), so
  the model keeps the slots only.
\<close>

definition js_assign :: "slot list \<Rightarrow> nat \<Rightarrow> slot \<Rightarrow> slot list" where
  "js_assign xs i v =
     (if i < length xs then xs[i := v]
      else if i < 4294967295 then xs @ replicate (i - length xs) Hole @ [v]
      else xs)"

text \<open>
  \<^verbatim>\<open>xs.filter((x, i) => p(x, i))\<close>: the callback runs on the slots that are present, in
  index order; empty slots are skipped and the result has none.
\<close>

definition js_filter :: "(slot \<Rightarrow> nat \<Rightarrow> bool) \<Rightarrow> slot list \<Rightarrow> slot list" where
  "js_filter p xs =
     map fst (filter (\<lambda>(x, i). x \<noteq> Hole \<and> p x i) (zip xs [0..<length xs]))"

text \<open>The arrays the data model of the form speaks of: every entry is a string.\<close>

definition strings_only :: "slot list \<Rightarrow> bool" where
  "strings_only xs = list_all (\<lambda>x. case x of Str _ \<Rightarrow> True | _ \<Rightarrow> False) xs"

text \<open>The slots of an array that are present (not empty).\<close>

definition present :: "slot list \<Rightarrow> slot list" where
  "present xs = filter (\<lambda>x. x \<noteq> Hole) xs"

section \<open>Strings\<close>

text \<open>
  \<^verbatim>\<open>String.prototype.trim\<close> removes white space and line terminators from both ends;
  below 256 these are the code units 9 to 13, 32 and 160.
\<close>

definition whitespace :: "char \<Rightarrow> bool" where
  "whitespace c = (of_char c \<in> {9, 10, 11, 12, 13, 32, 160 :: nat})"

definition trim :: "string \<Rightarrow> string" where
  "trim s = rev (dropWhile whitespace (rev (dropWhile whitespace s)))"

text \<open>The decimal digits of a non-negative integer, as a template literal prints it.\<close>

fun toString :: "nat \<Rightarrow> string" where
  "toString n =
     (if n < 10 then [''0123456789'' ! n]
      else toString (n div 10) @ [''0123456789'' ! (n mod 10)])"

section \<open>Form data and the recipient handlers\<close>

record formData =
  prompt :: string
  groqApiKey :: string
  recipients :: "slot list"
  senderEmail :: string
  senderPassword :: string
  smtpServer :: string
  smtpPort :: int

definition initialFormData :: formData where
  "initialFormData =
     \<lparr>prompt = '''', groqApiKey = '''', recipients = [Str ''''], senderEmail = '''',
      senderPassword = '''', smtpServer = ''smtp.gmail.com'', smtpPort = 587\<rparr>"

definition handleRecipientChange :: "nat \<Rightarrow> string \<Rightarrow> formData \<Rightarrow> formData" where
  "handleRecipientChange index v fd =
     (let newRecipients = js_assign (js_spread (recipients fd)) index (Str v)
      in fd\<lparr>recipients := newRecipients\<rparr>)"

definition addRecipient :: "formData \<Rightarrow> formData" where
  "addRecipient fd = fd\<lparr>recipients := js_spread (recipients fd) @ [Str '''']\<rparr>"

definition removeRecipient :: "nat \<Rightarrow> formData \<Rightarrow> formData" where
  "removeRecipient index fd =
     (if length (recipients fd) > 1
      then (let newRecipients = js_filter (\<lambda>_ i. i \<noteq> index) (recipients fd)
            in fd\<lparr>recipients := newRecipients\<rparr>)
      else fd)"

text \<open>Sequences of calls of the three recipient handlers.\<close>

datatype recipient_call = SetRecipient nat string | AddRecipient | RemoveRecipient nat

fun call :: "recipient_call \<Rightarrow> formData \<Rightarrow> formData" where
  "call (SetRecipient i v) fd = handleRecipientChange i v fd"
| "call AddRecipient fd = addRecipient fd"
| "call (RemoveRecipient i) fd = removeRecipient i fd"

fun calls :: "recipient_call list \<Rightarrow> formData \<Rightarrow> formData" where
  "calls [] fd = fd"
| "calls (c # cs) fd = calls cs (call c fd)"

text \<open>
  The rendered form calls \<^verbatim>\<open>handleRecipientChange\<close> with the index of an input it drew, one
  per entry: every \<open>SetRecipient\<close> of such a sequence is within the bounds of its moment.
\<close>

fun within_bounds :: "recipient_call list \<Rightarrow> formData \<Rightarrow> bool" where
  "within_bounds [] fd = True"
| "within_bounds (SetRecipient i v # cs) fd =
     (i < length (recipients fd) \<and> within_bounds cs (handleRecipientChange i v fd))"
| "within_bounds (c # cs) fd = within_bounds cs (call c fd)"

text \<open>
  The invariant the three handlers keep, also on arrays with empty slots: the array is
  not empty, and an array of two or more slots has two or more slots present (so that
  the filter of \<open>removeRecipient\<close>, which drops the empty slots too, leaves an entry).
\<close>

definition recipients_inv :: "slot list \<Rightarrow> bool" where
  "recipients_inv xs = (1 \<le> length xs \<and> min 2 (length xs) \<le> length (present xs))"

section \<open>Component state\<close>

datatype tab = Generate | Preview | Send

datatype notification_type = Success | Error

record email =
  subject :: string
  content :: string

record notification =
  message :: string
  type :: notification_type

text \<open>
  The five \<^verbatim>\<open>useState\<close> cells of the component, and the part of the browser the
  component acts on: a clock in milliseconds (\<open>now\<close>) and the due times of the pending
  \<^verbatim>\<open>setTimeout\<close> callbacks (\<open>timers\<close>). Every callback the component registers is
  \<^verbatim>\<open>() => setNotification(null)\<close>, so a due time is all a timer needs.
\<close>

record state =
  activeTab :: tab
  formData :: formData
  generatedEmail :: "email option"
  loading :: bool
  notification :: "notification option"
  now :: nat
  timers :: "nat list"

definition initialState :: state where
  "initialState =
     \<lparr>activeTab = Generate, formData = initialFormData, generatedEmail = None,
      loading = False, notification = None, now = 0, timers = []\<rparr>"

definition showNotification :: "string \<Rightarrow> notification_type \<Rightarrow> state \<Rightarrow> state" where
  "showNotification msg ty s =
     s\<lparr>notification := Some \<lparr>message = msg, type = ty\<rparr>,
       timers := timers s @ [now s + 5000]\<rparr>"

text \<open>
  \<open>elapse d\<close>: \<open>d\<close> milliseconds pass with no other event. Every timer that comes due
  runs its callback, which sets the notification to \<^verbatim>\<open>null\<close>; no timer is ever cancelled
  (the source has no \<^verbatim>\<open>clearTimeout\<close>).
\<close>

definition elapse :: "nat \<Rightarrow> state \<Rightarrow> state" where
  "elapse d s =
     (let t = now s + d;
          due = filter (\<lambda>x. x \<le> t) (timers s)
      in s\<lparr>now := t,
           timers := filter (\<lambda>x. \<not> x \<le> t) (timers s),
           notification := (if due = [] then notification s else None)\<rparr>)"

section \<open>The two remote calls\<close>

text \<open>The JSON bodies posted to \<^verbatim>\<open>/api/generate-email\<close> and \<^verbatim>\<open>/api/send-email-smtp\<close>.\<close>

datatype request =
  GenerateEmail (req_prompt: string) (groq_api_key: string)
| SendEmailSmtp (req_recipients: "string list") (req_subject: string) (req_content: string)
    (sender_email: string) (sender_password: string) (smtp_server: string) (smtp_port: int)

text \<open>
  What \<^verbatim>\<open>await fetch(...)\<close> settles with. \<open>NetworkError m\<close>: the promise rejects with an
  error of message \<open>m\<close>. \<open>Ok st b\<close>: a response whose \<^verbatim>\<open>ok\<close> is true (status \<open>st\<close> in
  200..299); \<open>NotOk st b\<close>: \<^verbatim>\<open>ok\<close> is false. The body \<open>b\<close> is what \<^verbatim>\<open>response.json()\<close>
  gives: \<open>Unparsable m\<close> when it rejects with a \<^verbatim>\<open>SyntaxError\<close> of message \<open>m\<close> (an empty
  body, a body that is not JSON), \<open>Json v\<close> otherwise. The parsed values have the shapes
  of the service's contract: \<^verbatim>\<open>{subject, content}\<close> for a generated email,
  \<^verbatim>\<open>{message, sent_to}\<close> for a delivery, and an object with an optional string
  \<^verbatim>\<open>detail\<close> for a failure.
\<close>

datatype 'a body = Unparsable string | Json 'a

datatype ('a, 'e) response = NetworkError string | Ok nat "'a body" | NotOk nat "'e body"

datatype sent = Sent (sent_message: string) (sent_to: "string list")

datatype errorData = ErrorData (detail: "string option")

datatype js_error = TypeError

subsection \<open>generateEmail\<close>

text \<open>
  An \<^verbatim>\<open>async\<close> function runs in two parts. \<open>generateEmail\<close> is the part that runs when
  the function is called, up to \<^verbatim>\<open>await fetch(...)\<close>: it returns the new state and the
  request it issued, if any. \<open>generateEmail_settled\<close> is the rest, run on the state of
  that later moment when the fetch settles: the \<^verbatim>\<open>try\<close> block (\<open>Inl\<close> the message of
  the error thrown), then \<^verbatim>\<open>catch\<close> and \<^verbatim>\<open>finally\<close>. It only calls state setters with
  fixed values, so it does not depend on the state the call started in. The
  \<^verbatim>\<open>console.error\<close> of the \<^verbatim>\<open>catch\<close> block changes nothing of the state and is left out.
\<close>

definition generateEmail :: "state \<Rightarrow> state \<times> request option" where
  "generateEmail s =
     (if trim (prompt (formData s)) = [] \<or> trim (groqApiKey (formData s)) = []
      then (showNotification ''Please provide both a prompt and Groq API key'' Error s, None)
      else (s\<lparr>loading := True\<rparr>,
            Some (GenerateEmail (prompt (formData s)) (groqApiKey (formData s)))))"

fun generateEmail_try :: "(email, 'e) response \<Rightarrow> string + email" where
  "generateEmail_try (NetworkError m) = Inl m"
| "generateEmail_try (NotOk st b) = Inl (''HTTP error! status: '' @ toString st)"
| "generateEmail_try (Ok st (Unparsable m)) = Inl m"
| "generateEmail_try (Ok st (Json data)) = Inr data"

definition generateEmail_settled :: "(email, 'e) response \<Rightarrow> state \<Rightarrow> state" where
  "generateEmail_settled r s =
     (case generateEmail_try r of
        Inr data \<Rightarrow>
          showNotification ''Email generated successfully!'' Success
            (s\<lparr>generatedEmail := Some data, activeTab := Preview\<rparr>)
      | Inl error \<Rightarrow>
          showNotification
            ''Failed to generate email. Please check your API key and try again.'' Error s)
     \<lparr>loading := False\<rparr>"

subsection \<open>sendEmail\<close>

text \<open>
  \<^verbatim>\<open>formData.recipients.filter(email => email.trim())\<close>: empty slots are skipped, a
  string is kept when its trimmed form is not empty, and \<^verbatim>\<open>undefined.trim()\<close> throws a
  \<^verbatim>\<open>TypeError\<close>.
\<close>

fun validRecipients :: "slot list \<Rightarrow> js_error + string list" where
  "validRecipients [] = Inr []"
| "validRecipients (Hole # xs) = validRecipients xs"
| "validRecipients (Undefined # xs) = Inl TypeError"
| "validRecipients (Str e # xs) =
     (case validRecipients xs of
        Inl err \<Rightarrow> Inl err
      | Inr vs \<Rightarrow> Inr (if trim e \<noteq> [] then e # vs else vs))"

text \<open>
  \<open>sendEmail\<close> is the part up to \<^verbatim>\<open>await fetch(...)\<close>; the filter runs outside the
  \<^verbatim>\<open>try\<close> block, so its \<^verbatim>\<open>TypeError\<close> leaves the function (\<open>Inl\<close>).
  \<open>sendEmail_settled\<close> is the rest.
\<close>

definition sendEmail :: "state \<Rightarrow> js_error + state \<times> request option" where
  "sendEmail s =
     (case generatedEmail s of
        None \<Rightarrow> Inr (s, None)
      | Some g \<Rightarrow>
          (case validRecipients (recipients (formData s)) of
             Inl err \<Rightarrow> Inl err
           | Inr vs \<Rightarrow>
               if length vs = 0
               then Inr (showNotification ''Please add at least one recipient email'' Error s,
                         None)
               else if senderEmail (formData s) = [] \<or> senderPassword (formData s) = []
               then Inr (showNotification ''Please provide sender email and password'' Error s,
                         None)
               else Inr (s\<lparr>loading := True\<rparr>,
                         Some (SendEmailSmtp vs (subject g) (content g)
                                 (senderEmail (formData s)) (senderPassword (formData s))
                                 (smtpServer (formData s)) (smtpPort (formData s))))))"

fun sendEmail_try :: "(sent, errorData) response \<Rightarrow> string + sent" where
  "sendEmail_try (NetworkError m) = Inl m"
| "sendEmail_try (NotOk st (Unparsable m)) = Inl m"
| "sendEmail_try (NotOk st (Json errorData)) =
     Inl (case detail errorData of
            None \<Rightarrow> ''Failed to send email''
          | Some d \<Rightarrow> if d \<noteq> [] then d else ''Failed to send email'')"
| "sendEmail_try (Ok st (Unparsable m)) = Inl m"
| "sendEmail_try (Ok st (Json data)) = Inr data"

definition sendEmail_settled :: "(sent, errorData) response \<Rightarrow> state \<Rightarrow> state" where
  "sendEmail_settled r s =
     (case sendEmail_try r of
        Inr data \<Rightarrow>
          showNotification
            (''Email sent successfully to '' @ toString (length (sent_to data)) @
             '' recipient(s)!'') Success s
      | Inl m \<Rightarrow>
          showNotification (if m \<noteq> [] then m else ''Failed to send email'') Error s)
     \<lparr>loading := False\<rparr>"

subsection \<open>The two buttons\<close>

text \<open>
  The Generate button is drawn on the \<open>Generate\<close> tab (\<^verbatim>\<open>app.jsx\<close> lines 190, 223 to
  225), the Send button on the \<open>Send\<close> tab when an email has been generated (lines 293,
  297, 380 to 382); both carry \<^verbatim>\<open>disabled={loading}\<close>, and a disabled button delivers
  no click. \<open>clickGenerate\<close> and \<open>clickSend\<close> are a click on the button in a state:
  the handler runs when the button is drawn and enabled, nothing happens otherwise.
\<close>

definition clickGenerate :: "state \<Rightarrow> state \<times> request option" where
  "clickGenerate s =
     (if activeTab s = Generate \<and> \<not> loading s then generateEmail s else (s, None))"

definition clickSend :: "state \<Rightarrow> js_error + state \<times> request option" where
  "clickSend s =
     (if activeTab s = Send \<and> generatedEmail s \<noteq> None \<and> \<not> loading s
      then sendEmail s else Inr (s, None))"

section \<open>Two states of a session\<close>

text \<open>
  \<open>composed\<close>: the user has typed a prompt and a key on the Generate tab.
  \<open>ready_to_send\<close>: an email has been generated, and on the Send tab the user has
  filled one of two recipient inputs and the sender's address and password.
\<close>

definition composed :: state where
  "composed =
     initialState\<lparr>formData :=
       initialFormData\<lparr>prompt := ''Follow up on invoice'', groqApiKey := ''k1''\<rparr>\<rparr>"

definition ready_to_send :: state where
  "ready_to_send =
     initialState
       \<lparr>activeTab := Send,
        formData :=
          initialFormData
            \<lparr>prompt := ''Follow up on invoice'', groqApiKey := ''k1'',
             recipients := [Str ''a@x.com'', Str []],
             senderEmail := ''me@x.com'', senderPassword := ''p''\<rparr>,
        generatedEmail := Some \<lparr>subject = ''Invoice Follow-up'', content = ''Hi team,...''\<rparr>\<rparr>"

section \<open>Facts about the array operations\<close>

lemma js_filter_snoc:
  "js_filter p (xs @ [x]) =
     js_filter p xs @ (if x \<noteq> Hole \<and> p x (length xs) then [x] else [])"
  by (simp add: js_filter_def)

lemma js_filter_Nil: "js_filter p [] = []"
  by (simp add: js_filter_def)

lemma js_filter_no_Hole: "Hole \<notin> set (js_filter p xs)"
  by (induction xs rule: rev_induct) (simp_all add: js_filter_snoc js_filter_Nil)

lemma js_filter_before:
  "length xs \<le> i \<Longrightarrow> js_filter (\<lambda>_ j. j \<noteq> i) xs = present xs"
  by (induction xs rule: rev_induct) (simp_all add: js_filter_snoc js_filter_Nil present_def)

lemma js_filter_length:
  "length (present xs) \<le> Suc (length (js_filter (\<lambda>_ j. j \<noteq> i) xs))"
proof (induction xs rule: rev_induct)
  case Nil
  then show ?case by (simp add: present_def)
next
  case (snoc x xs)
  show ?case
  proof (cases "length xs = i")
    case True
    then have "js_filter (\<lambda>_ j. j \<noteq> i) xs = present xs"
      by (simp add: js_filter_before)
    with True show ?thesis by (simp add: js_filter_snoc present_def)
  next
    case False
    with snoc show ?thesis by (simp add: js_filter_snoc present_def)
  qed
qed

lemma present_strings_only: "strings_only xs \<Longrightarrow> present xs = xs"
  by (induction xs) (auto simp: strings_only_def present_def split: slot.splits)

lemma js_filter_strings_only:
  "strings_only xs \<Longrightarrow> js_filter (\<lambda>_ j. j \<noteq> i) xs = take i xs @ drop (Suc i) xs"
proof (induction xs rule: rev_induct)
  case Nil
  then show ?case by (simp add: js_filter_Nil)
next
  case (snoc x xs)
  then have IH: "js_filter (\<lambda>_ j. j \<noteq> i) xs = take i xs @ drop (Suc i) xs"
    and x: "x \<noteq> Hole"
    by (auto simp: strings_only_def)
  consider "i < length xs" | "i = length xs" | "length xs < i" by linarith
  then show ?case
  proof cases
    case 1
    with IH x show ?thesis by (simp add: js_filter_snoc)
  next
    case 2
    with IH x show ?thesis by (simp add: js_filter_snoc)
  next
    case 3
    with IH x show ?thesis by (simp add: js_filter_snoc)
  qed
qed

lemma js_spread_strings_only: "strings_only xs \<Longrightarrow> js_spread xs = xs"
  by (induction xs) (auto simp: strings_only_def js_spread_def split: slot.splits)

lemma length_js_spread: "length (js_spread xs) = length xs"
  by (simp add: js_spread_def)

lemma js_spread_no_Hole: "Hole \<notin> set (js_spread xs)"
  by (auto simp: js_spread_def split: slot.splits)

lemma present_js_spread: "present (js_spread xs) = js_spread xs"
  using js_spread_no_Hole [of xs] by (auto simp add: present_def filter_id_conv)

lemma present_append: "present (xs @ ys) = present xs @ present ys"
  by (simp add: present_def)

lemma present_replicate_Hole: "present (replicate n Hole) = []"
  by (simp add: present_def)

lemma js_assign_dense:
  "Hole \<notin> set xs \<Longrightarrow> v \<noteq> Hole \<Longrightarrow> i < length xs \<Longrightarrow> Hole \<notin> set (js_assign xs i v)"
  by (auto simp: js_assign_def dest: set_update_subset_insert [THEN subsetD])

lemma inv_set:
  "recipients_inv (recipients fd) \<Longrightarrow> recipients_inv (recipients (handleRecipientChange i v fd))"
proof (cases "i < length (recipients fd)")
  case True
  assume "recipients_inv (recipients fd)"
  have "Hole \<notin> set (js_assign (js_spread (recipients fd)) i (Str v))"
    using True by (simp add: js_assign_dense js_spread_no_Hole length_js_spread)
  then have "present (js_assign (js_spread (recipients fd)) i (Str v)) = js_assign (js_spread (recipients fd)) i (Str v)"
    by (auto simp: present_def filter_id_conv)
  moreover have "length (js_assign (js_spread (recipients fd)) i (Str v)) = length (recipients fd)"
    using True by (simp add: js_assign_def length_js_spread)
  ultimately show ?thesis
    using \<open>recipients_inv (recipients fd)\<close>
    by (simp add: recipients_inv_def handleRecipientChange_def)
next
  case False
  assume inv: "recipients_inv (recipients fd)"
  show ?thesis
  proof (cases "i < 4294967295")
    case True
    with inv False show ?thesis
      by (simp add: recipients_inv_def handleRecipientChange_def js_assign_def length_js_spread
          present_append present_replicate_Hole present_js_spread) (simp add: present_def)
  next
    case False
    with inv \<open>\<not> i < length (recipients fd)\<close> show ?thesis
      by (simp add: recipients_inv_def handleRecipientChange_def js_assign_def length_js_spread
          present_js_spread)
  qed
qed

lemma inv_add:
  "recipients_inv (recipients fd) \<Longrightarrow> recipients_inv (recipients (addRecipient fd))"
  by (simp add: recipients_inv_def addRecipient_def present_append present_js_spread length_js_spread)
   (simp add: present_def)

lemma inv_remove:
  "recipients_inv (recipients fd) \<Longrightarrow> recipients_inv (recipients (removeRecipient i fd))"
proof (cases "length (recipients fd) > 1")
  case True
  assume inv: "recipients_inv (recipients fd)"
  let ?new = "js_filter (\<lambda>_ j. j \<noteq> i) (recipients fd)"
  have "present ?new = ?new"
    using js_filter_no_Hole [of "\<lambda>_ j. j \<noteq> i" "recipients fd"]
    by (auto simp: present_def filter_id_conv)
  moreover have "2 \<le> length (present (recipients fd))"
    using inv True by (simp add: recipients_inv_def)
  then have "1 \<le> length ?new"
    using js_filter_length [of "recipients fd" i] by linarith
  ultimately show ?thesis using True
    by (simp add: recipients_inv_def removeRecipient_def)
next
  case False
  assume "recipients_inv (recipients fd)"
  with False show ?thesis by (simp add: removeRecipient_def)
qed

lemma inv_call: "recipients_inv (recipients fd) \<Longrightarrow> recipients_inv (recipients (call c fd))"
  by (cases c) (simp_all add: inv_set inv_add inv_remove)

lemma inv_calls: "recipients_inv (recipients fd) \<Longrightarrow> recipients_inv (recipients (calls cs fd))"
  by (induction cs arbitrary: fd) (simp_all add: inv_call)

lemma inv_initial: "recipients_inv (recipients initialFormData)"
  by (simp add: recipients_inv_def initialFormData_def present_def)

lemma handleRecipientChange_strings_only:
  "strings_only (recipients fd) \<Longrightarrow> i < length (recipients fd) \<Longrightarrow>
   recipients (handleRecipientChange i v fd) = (recipients fd)[i := Str v]"
  by (simp add: handleRecipientChange_def js_spread_strings_only js_assign_def)

lemma strings_only_set:
  "strings_only (recipients fd) \<Longrightarrow> i < length (recipients fd) \<Longrightarrow>
   strings_only (recipients (handleRecipientChange i v fd))"
  by (auto simp: handleRecipientChange_strings_only strings_only_def
      list_all_iff dest: set_update_subset_insert [THEN subsetD])

lemma strings_only_add:
  "strings_only (recipients fd) \<Longrightarrow> strings_only (recipients (addRecipient fd))"
  by (simp add: addRecipient_def js_spread_strings_only) (simp add: strings_only_def)

lemma strings_only_remove:
  "strings_only (recipients fd) \<Longrightarrow> strings_only (recipients (removeRecipient i fd))"
  by (auto simp: removeRecipient_def js_filter_strings_only strings_only_def list_all_iff
      dest: in_set_takeD in_set_dropD)

lemma within_bounds_Cons: "within_bounds (c # cs) fd \<Longrightarrow> within_bounds cs (call c fd)"
  by (cases c) simp_all

lemma strings_only_call:
  "strings_only (recipients fd) \<Longrightarrow> within_bounds (c # cs) fd \<Longrightarrow>
   strings_only (recipients (call c fd))"
  by (cases c) (simp_all add: strings_only_set strings_only_add strings_only_remove)

lemma strings_only_calls:
  "strings_only (recipients fd) \<Longrightarrow> within_bounds cs fd \<Longrightarrow>
   strings_only (recipients (calls cs fd))"
proof (induction cs arbitrary: fd)
  case Nil
  then show ?case by simp
next
  case (Cons c cs)
  from Cons.prems have "strings_only (recipients (call c fd))"
    by (rule strings_only_call)
  moreover from Cons.prems have "within_bounds cs (call c fd)"
    by (simp add: within_bounds_Cons)
  ultimately show ?case by (simp add: Cons.IH)
qed


section \<open>Claims about the recipient handlers\<close>

text \<open>
  C10, as the code has it. \<open>handleRecipientChange\<close> checks no bounds and rejects no
  index. For an index within the current bounds the array keeps its length, the entry
  at the index is the new value, and every other slot is as the spread copied it: a
  string stays the string it was, an empty slot becomes \<^verbatim>\<open>undefined\<close>; on an array of
  strings only the entry at the index changes. For an index at or past the current
  length and below 4294967295 the array grows to length \<open>index + 1\<close>, the new value is
  at the index, the slots between are empty and the old slots are as the spread copied
  them. For an index at or past the current length that is 4294967295 or more the array
  is the spread copy: it keeps its length, and no slot holds the new value. No other
  field of the form data changes.
\<close>

theorem handleRecipientChange_no_bounds_check:
  "(i < length (recipients fd) \<longrightarrow>
      length (recipients (handleRecipientChange i v fd)) = length (recipients fd) \<and>
      recipients (handleRecipientChange i v fd) ! i = Str v \<and>
      (\<forall>j < length (recipients fd). j \<noteq> i \<longrightarrow>
         recipients (handleRecipientChange i v fd) ! j =
           (case recipients fd ! j of Hole \<Rightarrow> Undefined | x \<Rightarrow> x)) \<and>
      (strings_only (recipients fd) \<longrightarrow>
         recipients (handleRecipientChange i v fd) = (recipients fd)[i := Str v])) \<and>
   (length (recipients fd) \<le> i \<and> i < 4294967295 \<longrightarrow>
      length (recipients (handleRecipientChange i v fd)) = i + 1 \<and>
      recipients (handleRecipientChange i v fd) ! i = Str v \<and>
      (\<forall>j < length (recipients fd).
         recipients (handleRecipientChange i v fd) ! j =
           (case recipients fd ! j of Hole \<Rightarrow> Undefined | x \<Rightarrow> x)) \<and>
      (\<forall>j. length (recipients fd) \<le> j \<and> j < i \<longrightarrow>
         recipients (handleRecipientChange i v fd) ! j = Hole)) \<and>
   (length (recipients fd) \<le> i \<and> 4294967295 \<le> i \<longrightarrow>
      recipients (handleRecipientChange i v fd) = js_spread (recipients fd) \<and>
      length (recipients (handleRecipientChange i v fd)) = length (recipients fd) \<and>
      (strings_only (recipients fd) \<longrightarrow>
         recipients (handleRecipientChange i v fd) = recipients fd)) \<and>
   handleRecipientChange i v fd = fd\<lparr>recipients := recipients (handleRecipientChange i v fd)\<rparr>"
proof -
  let ?old = "recipients fd"
  let ?new = "recipients (handleRecipientChange i v fd)"
  have copied: "js_spread ?old ! j = (case ?old ! j of Hole \<Rightarrow> Undefined | x \<Rightarrow> x)"
    if "j < length ?old" for j
    using that by (simp add: js_spread_def split: slot.splits)
  have inside: "length ?new = length ?old \<and> ?new ! i = Str v \<and>
      (\<forall>j < length ?old. j \<noteq> i \<longrightarrow>
         ?new ! j = (case ?old ! j of Hole \<Rightarrow> Undefined | x \<Rightarrow> x)) \<and>
      (strings_only ?old \<longrightarrow> ?new = ?old[i := Str v])"
    if "i < length ?old"
  proof -
    from that have new: "?new = (js_spread ?old)[i := Str v]"
      by (simp add: handleRecipientChange_def js_assign_def length_js_spread)
    from that have "length ?new = length ?old" and "?new ! i = Str v"
      by (simp_all add: new length_js_spread)
    moreover have "?new ! j = (case ?old ! j of Hole \<Rightarrow> Undefined | x \<Rightarrow> x)"
      if "j < length ?old" and "j \<noteq> i" for j
      using that by (simp add: new copied)
    moreover have "?new = ?old[i := Str v]" if "strings_only ?old"
      using that by (simp add: new js_spread_strings_only)
    ultimately show ?thesis by blast
  qed
  have grown: "length ?new = i + 1 \<and> ?new ! i = Str v \<and>
      (\<forall>j < length ?old. ?new ! j = (case ?old ! j of Hole \<Rightarrow> Undefined | x \<Rightarrow> x)) \<and>
      (\<forall>j. length ?old \<le> j \<and> j < i \<longrightarrow> ?new ! j = Hole)"
    if "length ?old \<le> i" and "i < 4294967295"
  proof -
    from that have new: "?new = js_spread ?old @ replicate (i - length ?old) Hole @ [Str v]"
      by (simp add: handleRecipientChange_def js_assign_def length_js_spread)
    from that have "length ?new = i + 1" and "?new ! i = Str v"
      by (simp_all add: new length_js_spread nth_append)
    moreover have "?new ! j = (case ?old ! j of Hole \<Rightarrow> Undefined | x \<Rightarrow> x)"
      if "j < length ?old" for j
      using that by (simp add: new nth_append length_js_spread copied)
    moreover have "?new ! j = Hole" if "length ?old \<le> j \<and> j < i" for j
    proof -
      from that have "j - length ?old < i - length ?old" by arith
      with that show ?thesis by (simp add: new nth_append length_js_spread)
    qed
    ultimately show ?thesis by blast
  qed
  have beyond: "?new = js_spread ?old \<and> length ?new = length ?old \<and>
      (strings_only ?old \<longrightarrow> ?new = ?old)"
    if "length ?old \<le> i" and "4294967295 \<le> i"
  proof -
    from that have new: "?new = js_spread ?old"
      by (simp add: handleRecipientChange_def js_assign_def length_js_spread)
    then show ?thesis by (simp add: length_js_spread js_spread_strings_only)
  qed
  have "handleRecipientChange i v fd = fd\<lparr>recipients := ?new\<rparr>"
    by (simp add: handleRecipientChange_def)
  with inside grown beyond show ?thesis by blast
qed

theorem handleRecipientChange_no_bounds_check_witness:
  "strings_only [Str ''a@x.com'', Str []] \<and>
   recipients (handleRecipientChange 1 ''b@x.com''
      (initialFormData\<lparr>recipients := [Str ''a@x.com'', Str []]\<rparr>))
     = [Str ''a@x.com'', Str ''b@x.com''] \<and>
   recipients (handleRecipientChange 0 ''a@x.com''
      (initialFormData\<lparr>recipients := [Str [], Hole, Str ''c@x.com'']\<rparr>)) ! 1 = Undefined \<and>
   length (recipients (handleRecipientChange 3 ''c@x.com'' initialFormData)) = 4 \<and>
   recipients (handleRecipientChange 3 ''c@x.com'' initialFormData) ! 3 = Str ''c@x.com'' \<and>
   recipients (handleRecipientChange 3 ''c@x.com'' initialFormData) ! 0 = Str [] \<and>
   recipients (handleRecipientChange 3 ''c@x.com'' initialFormData) ! 2 = Hole \<and>
   recipients (handleRecipientChange 4294967295 ''c@x.com'' initialFormData) = [Str []]"
  using handleRecipientChange_no_bounds_check
          [of 1 "initialFormData\<lparr>recipients := [Str ''a@x.com'', Str []]\<rparr>" "''b@x.com''"]
        handleRecipientChange_no_bounds_check
          [of 0 "initialFormData\<lparr>recipients := [Str [], Hole, Str ''c@x.com'']\<rparr>" "''a@x.com''"]
        handleRecipientChange_no_bounds_check [of 3 initialFormData "''c@x.com''"]
        handleRecipientChange_no_bounds_check [of 4294967295 initialFormData "''c@x.com''"]
  by (simp add: initialFormData_def strings_only_def js_spread_def)

text \<open>
  The claim C10 as written fails twice on the code. At index 4294967295, which is past
  the length of the initial array, the array does not grow to length 4294967296: it
  keeps its one entry. And an in-bounds call on an array that an earlier out-of-bounds
  call left with an empty slot does change another slot: the empty slot at index 1
  becomes \<^verbatim>\<open>undefined\<close>, which the filter of \<open>sendEmail\<close> then meets with a \<^verbatim>\<open>TypeError\<close>
  where it skipped the empty slot before.
\<close>

theorem handleRecipientChange_counterexample:
  "length (recipients initialFormData) \<le> 4294967295 \<and>
   recipients (handleRecipientChange 4294967295 ''c@x.com'' initialFormData) = [Str []] \<and>
   recipients (handleRecipientChange 2 ''c@x.com'' initialFormData)
     = [Str [], Hole, Str ''c@x.com''] \<and>
   recipients (handleRecipientChange 0 ''a@x.com''
                 (handleRecipientChange 2 ''c@x.com'' initialFormData))
     = [Str ''a@x.com'', Undefined, Str ''c@x.com''] \<and>
   validRecipients [Str [], Hole, Str ''c@x.com''] = Inr [''c@x.com''] \<and>
   validRecipients [Str ''a@x.com'', Undefined, Str ''c@x.com''] = Inl TypeError"
  by (simp add: initialFormData_def handleRecipientChange_def js_assign_def js_spread_def
      trim_def whitespace_def)

text \<open>
  C2. Whatever sequence of \<open>handleRecipientChange\<close>, \<open>addRecipient\<close> and
  \<open>removeRecipient\<close> calls is made from the initial form data, at whatever indices, the
  recipients array has length at least 1. On an array of strings \<open>removeRecipient\<close>
  changes nothing when the array has exactly one entry and otherwise deletes exactly the
  slot at the index; the arrays reached from the initial form data by calls within
  bounds are arrays of strings.
\<close>

theorem recipients_never_empty:
  "1 \<le> length (recipients (calls cs initialFormData)) \<and>
   (within_bounds cs initialFormData \<longrightarrow> strings_only (recipients (calls cs initialFormData))) \<and>
   (strings_only (recipients fd) \<longrightarrow>
      recipients (removeRecipient i fd) =
        (if length (recipients fd) = 1 then recipients fd
         else take i (recipients fd) @ drop (Suc i) (recipients fd)))"
proof -
  have "recipients_inv (recipients (calls cs initialFormData))"
    by (rule inv_calls) (rule inv_initial)
  then have "1 \<le> length (recipients (calls cs initialFormData))"
    by (simp add: recipients_inv_def)
  moreover have "strings_only (recipients (calls cs initialFormData))"
    if "within_bounds cs initialFormData"
  proof -
    have "strings_only (recipients initialFormData)"
      by (simp add: initialFormData_def strings_only_def)
    then show ?thesis using that by (rule strings_only_calls)
  qed
  moreover have "recipients (removeRecipient i fd) =
        (if length (recipients fd) = 1 then recipients fd
         else take i (recipients fd) @ drop (Suc i) (recipients fd))"
    if "strings_only (recipients fd)"
  proof (cases "length (recipients fd) > 1")
    case True
    with that show ?thesis by (simp add: removeRecipient_def js_filter_strings_only)
  next
    case False
    then show ?thesis by (cases "recipients fd") (simp_all add: removeRecipient_def)
  qed
  ultimately show ?thesis by blast
qed

theorem recipients_never_empty_witness:
  "within_bounds [AddRecipient, SetRecipient 1 ''b@x.com'', RemoveRecipient 0] initialFormData \<and>
   strings_only
     (recipients (calls [AddRecipient, SetRecipient 1 ''b@x.com'', RemoveRecipient 0]
        initialFormData)) \<and>
   1 \<le> length
     (recipients (calls [AddRecipient, SetRecipient 1 ''b@x.com'', RemoveRecipient 0]
        initialFormData)) \<and>
   strings_only [Str ''a@x.com'', Str ''b@x.com''] \<and>
   recipients (removeRecipient 0 (initialFormData\<lparr>recipients := [Str ''a@x.com'', Str ''b@x.com'']\<rparr>))
     = [Str ''b@x.com''] \<and>
   recipients (removeRecipient 0 (initialFormData\<lparr>recipients := [Str ''b@x.com'']\<rparr>))
     = [Str ''b@x.com'']"
  using recipients_never_empty
          [of "[AddRecipient, SetRecipient 1 ''b@x.com'', RemoveRecipient 0]"
              "initialFormData\<lparr>recipients := [Str ''a@x.com'', Str ''b@x.com'']\<rparr>" 0]
        recipients_never_empty
          [of "[]" "initialFormData\<lparr>recipients := [Str ''b@x.com'']\<rparr>" 0]
  by (simp add: initialFormData_def addRecipient_def handleRecipientChange_def js_assign_def
      js_spread_def strings_only_def)

section \<open>Claims about generateEmail\<close>

lemmas state_defs = initialState_def initialFormData_def composed_def ready_to_send_def

text \<open>
  C4. When the prompt or the key is blank after trimming, \<open>generateEmail\<close> issues no
  request and raises the error notification; nothing else of the state changes (the
  in-flight flag is not set).
\<close>

theorem generateEmail_blank_input:
  "trim (prompt (formData s)) = [] \<or> trim (groqApiKey (formData s)) = [] \<Longrightarrow>
   generateEmail s =
     (s\<lparr>notification :=
          Some \<lparr>message = ''Please provide both a prompt and Groq API key'', type = Error\<rparr>,
        timers := timers s @ [now s + 5000]\<rparr>,
      None)"
  by (simp add: generateEmail_def showNotification_def)

theorem generateEmail_blank_input_witness:
  "trim (prompt (formData (composed\<lparr>formData := formData composed\<lparr>prompt := ''  ''\<rparr>\<rparr>))) = [] \<and>
   snd (generateEmail (composed\<lparr>formData := formData composed\<lparr>prompt := ''  ''\<rparr>\<rparr>)) = None \<and>
   notification (fst (generateEmail (composed\<lparr>formData := formData composed\<lparr>prompt := ''  ''\<rparr>\<rparr>)))
     = Some \<lparr>message = ''Please provide both a prompt and Groq API key'', type = Error\<rparr>"
proof -
  have blank: "trim (prompt (formData (composed\<lparr>formData := formData composed\<lparr>prompt := ''  ''\<rparr>\<rparr>))) = []"
    by (simp add: trim_def whitespace_def)
  then show ?thesis
    using generateEmail_blank_input
            [of "composed\<lparr>formData := formData composed\<lparr>prompt := ''  ''\<rparr>\<rparr>"]
    by simp
qed

text \<open>
  C5. When the fetch of \<open>generateEmail\<close> settles with an ok response whose body is
  \<^verbatim>\<open>{subject, content}\<close>, the component stores that object as the generated email, moves
  to the Preview tab, raises the success notification and clears the in-flight flag.
\<close>

theorem generateEmail_success:
  "generateEmail_settled (Ok st (Json \<lparr>subject = sub, content = body\<rparr>)) s =
     s\<lparr>generatedEmail := Some \<lparr>subject = sub, content = body\<rparr>,
       activeTab := Preview,
       notification := Some \<lparr>message = ''Email generated successfully!'', type = Success\<rparr>,
       timers := timers s @ [now s + 5000],
       loading := False\<rparr>"
  by (simp add: generateEmail_settled_def showNotification_def)

text \<open>
  C9. When the fetch of \<open>generateEmail\<close> fails (the network fails, the status is not
  ok, or the body of an ok response does not parse), the generated email and the tab
  stay as they are, the in-flight flag is cleared, and the error notification carries
  one fixed message, whatever the status; the message has no digit in it.
\<close>

theorem generateEmail_failure:
  "(let failed =
      s\<lparr>notification :=
          Some \<lparr>message = ''Failed to generate email. Please check your API key and try again.'',
                type = Error\<rparr>,
        timers := timers s @ [now s + 5000],
        loading := False\<rparr>
    in generateEmail_settled (NetworkError m) s = failed \<and>
       generateEmail_settled (NotOk st b) s = failed \<and>
       generateEmail_settled (Ok st (Unparsable m)) s = failed \<and>
       generatedEmail failed = generatedEmail s \<and>
       activeTab failed = activeTab s \<and>
       loading failed = False \<and>
       set ''Failed to generate email. Please check your API key and try again.''
         \<inter> set ''0123456789'' = {})"
  by (simp add: generateEmail_settled_def showNotification_def Let_def)

section \<open>Claims about sendEmail\<close>

lemma validRecipients_strings_only:
  "strings_only xs \<Longrightarrow> validRecipients xs = Inr (filter (\<lambda>e. trim e \<noteq> []) (map str xs))"
  by (induction xs rule: validRecipients.induct) (simp_all add: strings_only_def)

lemma filter_non_blank_empty:
  "(filter (\<lambda>e. trim e \<noteq> []) es = []) = list_all (\<lambda>e. trim e = []) es"
  by (induction es) simp_all

text \<open>
  C3, as the code has it. With no generated email \<open>sendEmail\<close> returns at once: no
  request and no notification, the state is as it was. With a generated email and
  recipients that are all blank after trimming it issues no request and raises the
  recipient notification; with a recipient that is not blank and an empty sender
  address or password it issues no request and raises the sender notification.
\<close>

theorem sendEmail_preconditions:
  "(generatedEmail s = None \<longrightarrow> sendEmail s = Inr (s, None)) \<and>
   (generatedEmail s \<noteq> None \<and> strings_only (recipients (formData s)) \<and>
    list_all (\<lambda>e. trim e = []) (map str (recipients (formData s))) \<longrightarrow>
      sendEmail s =
        Inr (s\<lparr>notification :=
                 Some \<lparr>message = ''Please add at least one recipient email'', type = Error\<rparr>,
               timers := timers s @ [now s + 5000]\<rparr>,
             None)) \<and>
   (generatedEmail s \<noteq> None \<and> strings_only (recipients (formData s)) \<and>
    \<not> list_all (\<lambda>e. trim e = []) (map str (recipients (formData s))) \<and>
    (senderEmail (formData s) = [] \<or> senderPassword (formData s) = []) \<longrightarrow>
      sendEmail s =
        Inr (s\<lparr>notification :=
                 Some \<lparr>message = ''Please provide sender email and password'', type = Error\<rparr>,
               timers := timers s @ [now s + 5000]\<rparr>,
             None))"
proof -
  define vs where "vs = filter (\<lambda>e. trim e \<noteq> []) (map str (recipients (formData s)))"
  have v: "validRecipients (recipients (formData s)) = Inr vs"
    if "strings_only (recipients (formData s))"
    unfolding vs_def using that by (rule validRecipients_strings_only)
  have e: "(vs = []) = list_all (\<lambda>e. trim e = []) (map str (recipients (formData s)))"
    unfolding vs_def by (rule filter_non_blank_empty)
  have absent: "sendEmail s = Inr (s, None)" if "generatedEmail s = None"
    using that by (simp add: sendEmail_def)
  have blank: "sendEmail s =
        Inr (s\<lparr>notification :=
                 Some \<lparr>message = ''Please add at least one recipient email'', type = Error\<rparr>,
               timers := timers s @ [now s + 5000]\<rparr>,
             None)"
    if "generatedEmail s \<noteq> None" and "strings_only (recipients (formData s))"
      and "list_all (\<lambda>e. trim e = []) (map str (recipients (formData s)))"
  proof -
    from that(3) e have "vs = []" by blast
    with that(1) v [OF that(2)] show ?thesis
      by (auto simp: sendEmail_def showNotification_def)
  qed
  have sender: "sendEmail s =
        Inr (s\<lparr>notification :=
                 Some \<lparr>message = ''Please provide sender email and password'', type = Error\<rparr>,
               timers := timers s @ [now s + 5000]\<rparr>,
             None)"
    if "generatedEmail s \<noteq> None" and "strings_only (recipients (formData s))"
      and "\<not> list_all (\<lambda>e. trim e = []) (map str (recipients (formData s)))"
      and "senderEmail (formData s) = [] \<or> senderPassword (formData s) = []"
  proof -
    from that(3) e have "vs \<noteq> []" by blast
    with that(1,4) v [OF that(2)] show ?thesis
      by (auto simp: sendEmail_def showNotification_def)
  qed
  from absent blank sender show ?thesis by blast
qed

theorem sendEmail_preconditions_witness:
  "sendEmail (ready_to_send\<lparr>generatedEmail := None\<rparr>)
     = Inr (ready_to_send\<lparr>generatedEmail := None\<rparr>, None) \<and>
   map_sum id (\<lambda>(s', r). (notification s', r))
     (sendEmail (ready_to_send\<lparr>formData := formData ready_to_send\<lparr>recipients := [Str '' '', Str []]\<rparr>\<rparr>))
     = Inr (Some \<lparr>message = ''Please add at least one recipient email'', type = Error\<rparr>, None) \<and>
   map_sum id (\<lambda>(s', r). (notification s', r))
     (sendEmail (ready_to_send\<lparr>formData := formData ready_to_send\<lparr>senderPassword := []\<rparr>\<rparr>))
     = Inr (Some \<lparr>message = ''Please provide sender email and password'', type = Error\<rparr>, None)"
  using sendEmail_preconditions [of "ready_to_send\<lparr>generatedEmail := None\<rparr>"]
        sendEmail_preconditions
          [of "ready_to_send\<lparr>formData := formData ready_to_send\<lparr>recipients := [Str '' '', Str []]\<rparr>\<rparr>"]
        sendEmail_preconditions
          [of "ready_to_send\<lparr>formData := formData ready_to_send\<lparr>senderPassword := []\<rparr>\<rparr>"]
  by (simp add: state_defs strings_only_def trim_def whitespace_def)

text \<open>
  The claim C3 as written asks for an error notification in every failing case. With
  no generated email there is none: the call leaves the notification absent.
\<close>

theorem sendEmail_absent_email_counterexample:
  "generatedEmail initialState = None \<and>
   sendEmail initialState = Inr (initialState, None) \<and>
   notification initialState = None"
  by (simp add: sendEmail_def initialState_def)

text \<open>
  C6. With a generated email, recipients that are strings and not all blank, and a
  sender address and password that are not empty, \<open>sendEmail\<close> posts exactly the
  recipients that are not blank after trimming, in order and as typed, and sets the
  in-flight flag. When the fetch settles with an ok response \<^verbatim>\<open>{message, sent_to}\<close>, the
  success notification reports the length of \<^verbatim>\<open>sent_to\<close>, the in-flight flag is cleared,
  and the tab and the generated email are as they were.
\<close>

theorem sendEmail_success:
  "(generatedEmail s = Some g \<and> strings_only (recipients (formData s)) \<and>
    \<not> list_all (\<lambda>e. trim e = []) (map str (recipients (formData s))) \<and>
    senderEmail (formData s) \<noteq> [] \<and> senderPassword (formData s) \<noteq> [] \<longrightarrow>
      sendEmail s =
        Inr (s\<lparr>loading := True\<rparr>,
             Some (SendEmailSmtp
                     (filter (\<lambda>e. trim e \<noteq> []) (map str (recipients (formData s))))
                     (subject g) (content g)
                     (senderEmail (formData s)) (senderPassword (formData s))
                     (smtpServer (formData s)) (smtpPort (formData s))))) \<and>
   sendEmail_settled (Ok st (Json (Sent m to))) s' =
     s'\<lparr>notification :=
          Some \<lparr>message = ''Email sent successfully to '' @ toString (length to) @
                          '' recipient(s)!'',
                type = Success\<rparr>,
        timers := timers s' @ [now s' + 5000],
        loading := False\<rparr> \<and>
   activeTab (sendEmail_settled (Ok st (Json (Sent m to))) s') = activeTab s' \<and>
   generatedEmail (sendEmail_settled (Ok st (Json (Sent m to))) s') = generatedEmail s'"
proof -
  define vs where "vs = filter (\<lambda>e. trim e \<noteq> []) (map str (recipients (formData s)))"
  have e: "(vs = []) = list_all (\<lambda>e. trim e = []) (map str (recipients (formData s)))"
    unfolding vs_def by (rule filter_non_blank_empty)
  have started: "sendEmail s =
        Inr (s\<lparr>loading := True\<rparr>,
             Some (SendEmailSmtp vs (subject g) (content g)
                     (senderEmail (formData s)) (senderPassword (formData s))
                     (smtpServer (formData s)) (smtpPort (formData s))))"
    if "generatedEmail s = Some g" and "strings_only (recipients (formData s))"
      and "\<not> list_all (\<lambda>e. trim e = []) (map str (recipients (formData s)))"
      and "senderEmail (formData s) \<noteq> []" and "senderPassword (formData s) \<noteq> []"
  proof -
    have "validRecipients (recipients (formData s)) = Inr vs"
      unfolding vs_def using that(2) by (rule validRecipients_strings_only)
    moreover from that(3) e have "vs \<noteq> []" by blast
    ultimately show ?thesis using that(1,4,5) by (simp add: sendEmail_def)
  qed
  have settled: "sendEmail_settled (Ok st (Json (Sent m to))) s' =
     s'\<lparr>notification :=
          Some \<lparr>message = ''Email sent successfully to '' @ toString (length to) @
                          '' recipient(s)!'',
                type = Success\<rparr>,
        timers := timers s' @ [now s' + 5000],
        loading := False\<rparr>"
    by (simp add: sendEmail_settled_def showNotification_def del: toString.simps)
  have "activeTab (sendEmail_settled (Ok st (Json (Sent m to))) s') = activeTab s'"
    and "generatedEmail (sendEmail_settled (Ok st (Json (Sent m to))) s') = generatedEmail s'"
    by (simp_all add: settled del: toString.simps)
  with started settled show ?thesis unfolding vs_def by blast
qed

theorem sendEmail_success_witness:
  "generatedEmail ready_to_send = Some \<lparr>subject = ''Invoice Follow-up'', content = ''Hi team,...''\<rparr> \<and>
   strings_only (recipients (formData ready_to_send)) \<and>
   sendEmail ready_to_send =
     Inr (ready_to_send\<lparr>loading := True\<rparr>,
          Some (SendEmailSmtp [''a@x.com''] ''Invoice Follow-up'' ''Hi team,...''
                  ''me@x.com'' ''p'' ''smtp.gmail.com'' 587)) \<and>
   notification (sendEmail_settled (Ok 200 (Json (Sent ''ok'' [''a@x.com''])))
                   (ready_to_send\<lparr>loading := True\<rparr>))
     = Some \<lparr>message = ''Email sent successfully to 1 recipient(s)!'', type = Success\<rparr> \<and>
   loading (sendEmail_settled (Ok 200 (Json (Sent ''ok'' [''a@x.com''])))
              (ready_to_send\<lparr>loading := True\<rparr>)) = False"
  using sendEmail_success
          [of ready_to_send "\<lparr>subject = ''Invoice Follow-up'', content = ''Hi team,...''\<rparr>"
              200 "''ok''" "[''a@x.com'']" "ready_to_send\<lparr>loading := True\<rparr>"]
  by (simp add: state_defs strings_only_def trim_def whitespace_def)

text \<open>
  C7 on the code: a 500 response with no body. \<^verbatim>\<open>response.json()\<close> rejects with a
  \<^verbatim>\<open>SyntaxError\<close> before \<^verbatim>\<open>errorData.detail || 'Failed to send email'\<close> is reached, and
  the \<^verbatim>\<open>catch\<close> block shows that error's own message (here the text V8 gives it), not
  the fallback.
\<close>

theorem sendEmail_no_body_shows_parse_error:
  "notification (sendEmail_settled (NotOk 500 (Unparsable ''Unexpected end of JSON input''))
                   (ready_to_send\<lparr>loading := True\<rparr>))
     = Some \<lparr>message = ''Unexpected end of JSON input'', type = Error\<rparr> \<and>
   ''Unexpected end of JSON input'' \<noteq> ''Failed to send email''"
  by (simp add: sendEmail_settled_def showNotification_def)

text \<open>
  The part of C7 the code does have: a failure body that parses gives its \<^verbatim>\<open>detail\<close>
  when it has one that is not empty, and the fallback otherwise.
\<close>

lemma sendEmail_failure_detail:
  "d \<noteq> [] \<Longrightarrow>
   notification (sendEmail_settled (NotOk st (Json (ErrorData (Some d)))) s)
     = Some \<lparr>message = d, type = Error\<rparr>"
  by (simp add: sendEmail_settled_def showNotification_def)

lemma sendEmail_failure_fallback:
  "notification (sendEmail_settled (NotOk st (Json (ErrorData None))) s)
     = Some \<lparr>message = ''Failed to send email'', type = Error\<rparr>"
  by (simp add: sendEmail_settled_def showNotification_def)

lemma sendEmail_failure_clears_loading:
  "loading (sendEmail_settled r s) = False"
  by (simp add: sendEmail_settled_def showNotification_def split: sum.splits)

section \<open>Claims about the in-flight flag\<close>

text \<open>
  C1, as the code has it. Neither handler reads \<open>loading\<close>: the request a handler
  issues is the same whatever the flag. The guard is on the buttons, which are disabled
  while \<open>loading\<close> is set: a click on either then issues no request and changes nothing,
  and a click that did issue a request leaves a state in which a second click on either
  button issues none.
\<close>

theorem single_flight_by_disabled_buttons:
  "(loading s \<longrightarrow> clickGenerate s = (s, None) \<and> clickSend s = Inr (s, None)) \<and>
   (clickGenerate s = (s', Some r) \<longrightarrow>
      loading s' \<and> clickGenerate s' = (s', None) \<and> clickSend s' = Inr (s', None)) \<and>
   (clickSend s = Inr (s', Some r) \<longrightarrow>
      loading s' \<and> clickGenerate s' = (s', None) \<and> clickSend s' = Inr (s', None)) \<and>
   snd (generateEmail (s\<lparr>loading := b\<rparr>)) = snd (generateEmail s) \<and>
   map_sum id snd (sendEmail (s\<lparr>loading := b\<rparr>)) = map_sum id snd (sendEmail s)"
proof -
  have flag: "clickGenerate t = (t, None) \<and> clickSend t = Inr (t, None)" if "loading t" for t
    using that by (simp add: clickGenerate_def clickSend_def)
  have gen: "loading s'" if "clickGenerate s = (s', Some r)"
    using that by (auto simp: clickGenerate_def generateEmail_def split: if_splits)
  have send: "loading s'" if "clickSend s = Inr (s', Some r)"
    using that
    by (auto simp: clickSend_def sendEmail_def split: if_splits option.splits sum.splits)
  have "snd (generateEmail (s\<lparr>loading := b\<rparr>)) = snd (generateEmail s)"
    by (simp add: generateEmail_def)
  moreover have "map_sum id snd (sendEmail (s\<lparr>loading := b\<rparr>)) = map_sum id snd (sendEmail s)"
    by (simp add: sendEmail_def split: option.splits sum.splits)
  ultimately show ?thesis using flag gen send by blast
qed

theorem single_flight_by_disabled_buttons_witness:
  "clickGenerate composed
     = (composed\<lparr>loading := True\<rparr>, Some (GenerateEmail ''Follow up on invoice'' ''k1'')) \<and>
   loading (composed\<lparr>loading := True\<rparr>) \<and>
   clickGenerate (composed\<lparr>loading := True\<rparr>) = (composed\<lparr>loading := True\<rparr>, None) \<and>
   clickSend ready_to_send
     = Inr (ready_to_send\<lparr>loading := True\<rparr>,
            Some (SendEmailSmtp [''a@x.com''] ''Invoice Follow-up'' ''Hi team,...''
                    ''me@x.com'' ''p'' ''smtp.gmail.com'' 587)) \<and>
   clickSend (ready_to_send\<lparr>loading := True\<rparr>) = Inr (ready_to_send\<lparr>loading := True\<rparr>, None) \<and>
   clickGenerate (ready_to_send\<lparr>loading := True\<rparr>) = (ready_to_send\<lparr>loading := True\<rparr>, None)"
proof -
  have g: "clickGenerate composed
     = (composed\<lparr>loading := True\<rparr>, Some (GenerateEmail ''Follow up on invoice'' ''k1''))"
    by (simp add: clickGenerate_def generateEmail_def state_defs trim_def whitespace_def)
  have d: "clickSend ready_to_send
     = Inr (ready_to_send\<lparr>loading := True\<rparr>,
            Some (SendEmailSmtp [''a@x.com''] ''Invoice Follow-up'' ''Hi team,...''
                    ''me@x.com'' ''p'' ''smtp.gmail.com'' 587))"
    by (simp add: clickSend_def sendEmail_def state_defs trim_def whitespace_def)
  show ?thesis
    using g d
      single_flight_by_disabled_buttons
        [of composed "composed\<lparr>loading := True\<rparr>"
            "GenerateEmail ''Follow up on invoice'' ''k1''"]
      single_flight_by_disabled_buttons
        [of ready_to_send "ready_to_send\<lparr>loading := True\<rparr>"
            "SendEmailSmtp [''a@x.com''] ''Invoice Follow-up'' ''Hi team,...''
               ''me@x.com'' ''p'' ''smtp.gmail.com'' 587"]
      single_flight_by_disabled_buttons
        [of "ready_to_send\<lparr>loading := True\<rparr>", THEN conjunct1]
    by simp
qed

text \<open>
  The claim C1 as written is about the handlers. Called a second time while the first
  request is in flight, \<open>generateEmail\<close> issues a second request.
\<close>

theorem generateEmail_in_flight_counterexample:
  "generateEmail composed
     = (composed\<lparr>loading := True\<rparr>, Some (GenerateEmail ''Follow up on invoice'' ''k1'')) \<and>
   loading (composed\<lparr>loading := True\<rparr>) \<and>
   generateEmail (composed\<lparr>loading := True\<rparr>)
     = (composed\<lparr>loading := True\<rparr>, Some (GenerateEmail ''Follow up on invoice'' ''k1''))"
  by (simp add: generateEmail_def state_defs trim_def whitespace_def)

section \<open>Claims about the notification\<close>

text \<open>
  C8 on the code: a first notification at time 0, a second one 3000 ms later. The
  second replaces the first, but the first one's timer is still pending: it fires at
  5000 ms and clears the second notification 2000 ms after its creation. The same
  happens to a user who clicks Generate with an empty prompt twice, 3000 ms apart.
\<close>

theorem second_notification_cleared_early:
  "notification (showNotification ''second'' Error
                   (elapse 3000 (showNotification ''first'' Success initialState)))
     = Some \<lparr>message = ''second'', type = Error\<rparr> \<and>
   notification (elapse 1999 (showNotification ''second'' Error
                   (elapse 3000 (showNotification ''first'' Success initialState))))
     = Some \<lparr>message = ''second'', type = Error\<rparr> \<and>
   notification (elapse 2000 (showNotification ''second'' Error
                   (elapse 3000 (showNotification ''first'' Success initialState))))
     = None \<and>
   notification (fst (generateEmail (elapse 3000 (fst (generateEmail initialState)))))
     = Some \<lparr>message = ''Please provide both a prompt and Groq API key'', type = Error\<rparr> \<and>
   notification (elapse 2000 (fst (generateEmail (elapse 3000 (fst (generateEmail initialState))))))
     = None"
  by (simp add: showNotification_def elapse_def generateEmail_def initialState_def
      initialFormData_def trim_def)

text \<open>
  The part of C8 the code does have: there is one notification cell, a new notification
  replaces what is in it, and with no earlier timer pending a notification is visible
  for exactly 5000 ms.
\<close>

lemma showNotification_replaces:
  "notification (showNotification m ty s) = Some \<lparr>message = m, type = ty\<rparr>"
  by (simp add: showNotification_def)

lemma notification_alone_expires:
  "timers s = [] \<Longrightarrow>
   notification (elapse d (showNotification m ty s))
     = (if d < 5000 then Some \<lparr>message = m, type = ty\<rparr> else None)"
  by (simp add: showNotification_def elapse_def)

end
